theory Spec2Isabelle
  imports Complex_Main
begin

section \<open>Chunker: \<open>PDFExtractor._split_text\<close> (src/pdf/extractor.py)\<close>

text \<open>
  Python strings are modelled as character lists. Cursors are Python ints and may become
  negative (\<open>start = end - chunk_overlap\<close>), so the index arithmetic of slicing and of
  \<open>str.rfind\<close> is written out: a negative index counts from the end of the string and
  every index is clamped to the range \<open>0 .. len\<close>.
\<close>

record PDFExtractor =
  chunk_size :: int
  chunk_overlap :: int

definition PDFExtractor_init :: "int \<Rightarrow> int \<Rightarrow> PDFExtractor" where
  "PDFExtractor_init cs ov = \<lparr>chunk_size = cs, chunk_overlap = ov\<rparr>"

definition PDFExtractor_default :: PDFExtractor where
  "PDFExtractor_default = PDFExtractor_init 1000 200"

definition adjust_index :: "int \<Rightarrow> nat \<Rightarrow> nat" where
  "adjust_index i n = (if i < 0 then nat (i + int n) else min (nat i) n)"

definition py_slice :: "'a list \<Rightarrow> int \<Rightarrow> int \<Rightarrow> 'a list" where
  "py_slice xs i j =
     (let a = adjust_index i (length xs); b = adjust_index j (length xs)
      in take (b - a) (drop a xs))"

text \<open>
  \<open>rfind_scan xs sub a k\<close> tries the \<open>k\<close> positions \<open>a, \<dots>, a + k - 1\<close> from the highest
  down and returns the first at which \<open>sub\<close> occurs, or \<open>-1\<close>.
\<close>

fun rfind_scan :: "'a list \<Rightarrow> 'a list \<Rightarrow> nat \<Rightarrow> nat \<Rightarrow> int" where
  "rfind_scan xs sub a 0 = - 1"
| "rfind_scan xs sub a (Suc k) =
     (if take (length sub) (drop (a + k) xs) = sub then int (a + k)
      else rfind_scan xs sub a k)"

definition rfind :: "'a list \<Rightarrow> 'a list \<Rightarrow> int \<Rightarrow> int \<Rightarrow> int" where
  "rfind xs sub i j =
     (let a = adjust_index i (length xs); b = adjust_index j (length xs)
      in if b < a + length sub then - 1
         else rfind_scan xs sub a (Suc (b - length sub - a)))"

definition is_space :: "char \<Rightarrow> bool" where
  "is_space c = (of_char c \<in> {9, 10, 11, 12, 13, 28, 29, 30, 31, 32, 133, 160 :: nat})"

definition strip :: "string \<Rightarrow> string" where
  "strip s = rev (dropWhile is_space (rev (dropWhile is_space s)))"

text \<open>Lines 60 to 67: the end of the segment that starts at \<open>start\<close>.\<close>

definition segment_end :: "int \<Rightarrow> string \<Rightarrow> int \<Rightarrow> int" where
  "segment_end cs text start =
     (let e = start + cs
      in if e < int (length text) then
           let break_point = rfind text ''. '' start e;
               break_point = (if break_point = - 1 \<or> break_point \<le> start
                              then rfind text '' '' start e else break_point)
           in if break_point > start then break_point + 1 else e
         else e)"

text \<open>
  The \<open>while\<close> loop of lines 59 to 70. It may run forever, so it takes fuel: one unit per
  test of the loop condition, and \<open>None\<close> when the fuel is used up.
\<close>

fun split_loop :: "nat \<Rightarrow> PDFExtractor \<Rightarrow> string \<Rightarrow> int \<Rightarrow> string list \<Rightarrow> string list option" where
  "split_loop 0 self text start chunks = None"
| "split_loop (Suc fuel) self text start chunks =
     (if start < int (length text) then
        let e = segment_end (chunk_size self) text start
        in split_loop fuel self text (e - chunk_overlap self) (chunks @ [py_slice text start e])
      else Some chunks)"

definition split_text :: "nat \<Rightarrow> PDFExtractor \<Rightarrow> string \<Rightarrow> string list option" where
  "split_text fuel self text =
     (if int (length text) \<le> chunk_size self
      then Some (if strip text \<noteq> [] then [text] else [])
      else split_loop fuel self text 0 [])"


section \<open>Errors and small string helpers\<close>

text \<open>Every exception the modelled code can raise is a value of this type.\<close>

datatype py_error =
    EmbeddingServiceError
  | CompletionServiceError
  | StoreError
  | JSONDecodeError
  | IndexError
  | KeyError
  | TypeError

function digits :: "nat \<Rightarrow> string" where
  "digits n = (if n < 10 then [char_of (48 + n)]
               else digits (n div 10) @ [char_of (48 + n mod 10)])"
  by pat_completeness auto
termination
  by (relation "measure (\<lambda>n. n)") auto

declare digits.simps [simp del]

definition str_int :: "int \<Rightarrow> string" where
  "str_int i = (if i < 0 then CHR ''-'' # digits (nat (- i)) else digits (nat i))"

fun join :: "string \<Rightarrow> string list \<Rightarrow> string" where
  "join sep [] = []"
| "join sep [x] = x"
| "join sep (x # y # ys) = x @ sep @ join sep (y # ys)"

section \<open>Embedding gateway: \<open>EmbeddingEngine\<close> (src/embeddings/engine.py)\<close>

text \<open>
  The external embedding service is a parameter: given the texts of one request it returns
  one embedding per text, or fails. A run of the engine returns its result together with
  the requests it sent to the service and the progress values it reported.
\<close>

type_synonym 'e embedding_service = "string list \<Rightarrow> py_error + 'e list"

record 'e embed_run =
  embed_result :: "py_error + 'e list"
  embed_requests :: "string list list"
  embed_progress :: "rat list"

definition BATCH_SIZE :: nat where
  "BATCH_SIZE = 50"

definition embed_text :: "'e embedding_service \<Rightarrow> string \<Rightarrow> py_error + 'e" where
  "embed_text service text =
     (case service [text] of
        Inl err \<Rightarrow> Inl err
      | Inr data \<Rightarrow> (case data of [] \<Rightarrow> Inl IndexError | item # _ \<Rightarrow> Inr item))"

text \<open>The \<open>for i in range(0, total, BATCH_SIZE)\<close> loop of \<open>embed_texts\<close>.\<close>

function embed_batches ::
  "'e embedding_service \<Rightarrow> bool \<Rightarrow> string list \<Rightarrow> nat \<Rightarrow> 'e embed_run \<Rightarrow> 'e list \<Rightarrow> 'e embed_run" where
  "embed_batches service has_callback texts i run all_embeddings =
     (if i < length texts then
        let batch = take BATCH_SIZE (drop i texts);
            run = run\<lparr>embed_requests := embed_requests run @ [batch]\<rparr>
        in case service batch of
             Inl err \<Rightarrow> run\<lparr>embed_result := Inl err\<rparr>
           | Inr data \<Rightarrow>
               let progress = of_nat (min (i + BATCH_SIZE) (length texts)) / of_nat (length texts);
                   run = (if has_callback
                          then run\<lparr>embed_progress := embed_progress run @ [progress]\<rparr>
                          else run)
               in embed_batches service has_callback texts (i + BATCH_SIZE) run (all_embeddings @ data)
      else run\<lparr>embed_result := Inr all_embeddings\<rparr>)"
  by pat_completeness auto
termination
  by (relation "measure (\<lambda>(service, has_callback, texts, i, run, all_embeddings). length texts - i)")
     (auto simp: BATCH_SIZE_def)

declare embed_batches.simps [simp del]

definition embed_texts :: "'e embedding_service \<Rightarrow> string list \<Rightarrow> bool \<Rightarrow> 'e embed_run" where
  "embed_texts service texts has_callback =
     (let run = \<lparr>embed_result = Inr [], embed_requests = [], embed_progress = []\<rparr>
      in if texts = [] then run
         else if length texts \<le> BATCH_SIZE then
           (let run = run\<lparr>embed_requests := [texts]\<rparr>
            in case service texts of
                 Inl err \<Rightarrow> run\<lparr>embed_result := Inl err\<rparr>
               | Inr data \<Rightarrow>
                   (if has_callback
                    then run\<lparr>embed_result := Inr data, embed_progress := [1]\<rparr>
                    else run\<lparr>embed_result := Inr data\<rparr>))
         else embed_batches service has_callback texts 0 run [])"


section \<open>Vector index: \<open>VectorStore\<close> (src/vectordb/store.py)\<close>

record TextChunk =
  chunk_text :: string
  page_number :: int
  chunk_index :: int
  source_file :: string

text \<open>A metadata dictionary maps keys to ints or strings; it is kept as an association list.\<close>

datatype meta_value = MInt int | MStr string

type_synonym metadata = "(string \<times> meta_value) list"

record 'e entry =
  entry_id :: string
  entry_embedding :: 'e
  entry_document :: string
  entry_metadata :: "metadata option"

record 'e VectorStore =
  collection :: "'e entry list"
  top_k :: int

record 'd search_result =
  result_text :: string
  result_metadata :: "metadata option"
  result_distance :: 'd

text \<open>
  The persistent index store is an external library and is not part of the sources. A
  collection is kept as the list of its entries; its operations are modelled from the store
  contract of the specification, and the distance function of the store is a parameter.
\<close>

text \<open>
  Modelled from the spec: \<open>upsert(ids, vectors, documents, metadatas)\<close>, one entry. The
  store code is missing; an entry that has the same id is overwritten.
\<close>

fun upsert_entry :: "'e entry \<Rightarrow> 'e entry list \<Rightarrow> 'e entry list" where
  "upsert_entry x [] = [x]"
| "upsert_entry x (y # ys) =
     (if entry_id y = entry_id x then x # ys else y # upsert_entry x ys)"

text \<open>
  Modelled from the spec: \<open>upsert(ids, vectors, documents, metadatas)\<close>, called as
  \<open>collection.add\<close>. The store code is missing; the four sequences are taken to have one
  length, and the entries are written in order.
\<close>

definition collection_add ::
  "'e entry list \<Rightarrow> string list \<Rightarrow> 'e list \<Rightarrow> string list \<Rightarrow> metadata list
     \<Rightarrow> py_error + 'e entry list" where
  "collection_add coll ids embeddings documents metadatas =
     (if length embeddings = length ids \<and> length documents = length ids
         \<and> length metadatas = length ids
      then Inr (foldl (\<lambda>c x. upsert_entry x c) coll
             (map (\<lambda>(i, e, d, m).
                     \<lparr>entry_id = i, entry_embedding = e, entry_document = d,
                      entry_metadata = Some m\<rparr>)
                (zip ids (zip embeddings (zip documents metadatas)))))
      else Inl StoreError)"

text \<open>
  Modelled from the spec: \<open>query(vector, k)\<close>, called as \<open>collection.query\<close>. The store
  code is missing; the result is at most \<open>k\<close> entries of the collection, ranked by ascending
  distance to the query vector.
\<close>

definition collection_query ::
  "('e \<Rightarrow> 'e \<Rightarrow> 'd::linorder) \<Rightarrow> 'e entry list \<Rightarrow> 'e \<Rightarrow> int \<Rightarrow> 'e entry list" where
  "collection_query distance coll query_embedding n_results =
     take (nat n_results) (sort_key (\<lambda>x. distance query_embedding (entry_embedding x)) coll)"

text \<open>
  Modelled from the spec: the metadata predicate of \<open>deleteWhere\<close>, written
  \<open>where={key: v}\<close> in the call. The store code is missing; the predicate holds of a
  metadata dictionary that has the value \<open>v\<close> under \<open>key\<close>.
\<close>

definition metadata_matches :: "string \<Rightarrow> meta_value \<Rightarrow> metadata option \<Rightarrow> bool" where
  "metadata_matches key v m =
     (case m of None \<Rightarrow> False | Some kvs \<Rightarrow> map_of kvs key = Some v)"

text \<open>
  Modelled from the spec: \<open>deleteWhere(metadataPredicate)\<close>, called as
  \<open>collection.delete\<close>. The store code is missing; every entry whose metadata satisfies the
  predicate is removed, and it is no error when there is none.
\<close>

definition collection_delete :: "'e entry list \<Rightarrow> string \<Rightarrow> meta_value \<Rightarrow> 'e entry list" where
  "collection_delete coll key v =
     filter (\<lambda>x. \<not> metadata_matches key v (entry_metadata x)) coll"

text \<open>
  Modelled from the spec: \<open>getAll(fields)\<close>, called as \<open>collection.get\<close> for the
  metadata. The store code is missing; the result has the metadata of every entry.
\<close>

definition collection_get_metadatas :: "'e entry list \<Rightarrow> metadata option list" where
  "collection_get_metadatas coll = map entry_metadata coll"

text \<open>
  \<open>add_chunks\<close> returns what it raised, if anything, and the store afterwards.
\<close>

definition add_chunks ::
  "'e embedding_service \<Rightarrow> 'e VectorStore \<Rightarrow> TextChunk list \<Rightarrow> bool
     \<Rightarrow> py_error option \<times> 'e VectorStore" where
  "add_chunks service self chunks has_callback =
     (if chunks = [] then (None, self)
      else
        let texts = map chunk_text chunks
        in case embed_result (embed_texts service texts has_callback) of
             Inl err \<Rightarrow> (Some err, self)
           | Inr embeddings \<Rightarrow>
               let ids = map (\<lambda>c. source_file c @ ''_'' @ str_int (chunk_index c)) chunks;
                   metadatas = map (\<lambda>c. [(''page_number'', MInt (page_number c)),
                                           (''source_file'', MStr (source_file c)),
                                           (''chunk_index'', MInt (chunk_index c))]) chunks
               in case collection_add (collection self) ids embeddings texts metadatas of
                    Inl err \<Rightarrow> (Some err, self)
                  | Inr coll \<Rightarrow> (None, self\<lparr>collection := coll\<rparr>))"

text \<open>Line 54, \<open>k = top_k or self.top_k\<close>: \<open>None\<close> and \<open>0\<close> are both falsy.\<close>

definition effective_k :: "'e VectorStore \<Rightarrow> int option \<Rightarrow> int" where
  "effective_k self top_k_arg =
     (case top_k_arg of
        None \<Rightarrow> top_k self
      | Some n \<Rightarrow> if n = 0 then top_k self else n)"

definition search ::
  "'e embedding_service \<Rightarrow> ('e \<Rightarrow> 'e \<Rightarrow> 'd::linorder) \<Rightarrow> 'e VectorStore \<Rightarrow> string
     \<Rightarrow> int option \<Rightarrow> py_error + 'd search_result list" where
  "search service distance self query top_k_arg =
     (let k = effective_k self top_k_arg
      in case embed_text service query of
           Inl err \<Rightarrow> Inl err
         | Inr query_embedding \<Rightarrow>
             Inr (map (\<lambda>x. \<lparr>result_text = entry_document x,
                             result_metadata = entry_metadata x,
                             result_distance = distance query_embedding (entry_embedding x)\<rparr>)
                   (collection_query distance (collection self) query_embedding k)))"

definition delete_document :: "'e VectorStore \<Rightarrow> string \<Rightarrow> 'e VectorStore" where
  "delete_document self f =
     self\<lparr>collection := collection_delete (collection self) ''source_file'' (MStr f)\<rparr>"

text \<open>
  \<open>list_documents\<close> collects the values into a Python set and returns them as a list in
  the set's order, which the language leaves open; the model returns the set.
\<close>

fun collect_sources :: "metadata option list \<Rightarrow> meta_value set \<Rightarrow> meta_value set" where
  "collect_sources [] sources = sources"
| "collect_sources (m # ms) sources =
     (case m of
        None \<Rightarrow> collect_sources ms sources
      | Some kvs \<Rightarrow>
          (if kvs \<noteq> [] then
             (case map_of kvs ''source_file'' of
                None \<Rightarrow> collect_sources ms sources
              | Some v \<Rightarrow> collect_sources ms (insert v sources))
           else collect_sources ms sources))"

definition list_documents :: "'e VectorStore \<Rightarrow> meta_value set" where
  "list_documents self = collect_sources (collection_get_metadatas (collection self)) {}"


section \<open>Completion service and conversation messages\<close>

record tool_call =
  call_id :: string
  call_name :: string
  call_arguments :: string

text \<open>The message of a completion response: \<open>content\<close> and \<open>tool_calls\<close> may both be \<open>None\<close>.\<close>

record completion_message =
  content :: "string option"
  tool_calls :: "tool_call list option"

datatype message =
    SystemMessage string
  | UserMessage string
  | AssistantMessage completion_message
  | ToolMessage string string

record 's tool_declaration =
  decl_name :: string
  decl_description :: string
  decl_parameters :: 's

text \<open>
  The external completion service is a parameter: given the conversation and the tool
  declarations of a request it returns the message of the first choice, or fails.
\<close>

type_synonym 's completion_service =
  "message list \<Rightarrow> 's tool_declaration list option \<Rightarrow> py_error + completion_message"

section \<open>Answer generator: \<open>RAGPipeline\<close> (src/rag/pipeline.py)\<close>

record rag_run =
  rag_result :: "py_error + string"
  rag_completions :: "message list list"

definition newline :: string where
  "newline = [CHR 0x0A]"

definition meta_get :: "metadata option \<Rightarrow> string \<Rightarrow> py_error + meta_value" where
  "meta_get m key =
     (case m of
        None \<Rightarrow> Inl TypeError
      | Some kvs \<Rightarrow> (case map_of kvs key of None \<Rightarrow> Inl KeyError | Some v \<Rightarrow> Inr v))"

definition str_meta :: "meta_value \<Rightarrow> string" where
  "str_meta v = (case v of MInt i \<Rightarrow> str_int i | MStr s \<Rightarrow> s)"

fun context_parts :: "nat \<Rightarrow> 'd search_result list \<Rightarrow> py_error + string list" where
  "context_parts i [] = Inr []"
| "context_parts i (r # rs) =
     (case meta_get (result_metadata r) ''source_file'' of
        Inl err \<Rightarrow> Inl err
      | Inr source \<Rightarrow>
          (case meta_get (result_metadata r) ''page_number'' of
             Inl err \<Rightarrow> Inl err
           | Inr page \<Rightarrow>
               (case context_parts (Suc i) rs of
                  Inl err \<Rightarrow> Inl err
                | Inr parts \<Rightarrow>
                    Inr ((''[Source '' @ digits i @ '': '' @ str_meta source @ '', Page ''
                           @ str_meta page @ '']'' @ newline @ result_text r) # parts))))"

definition build_context :: "'d search_result list \<Rightarrow> py_error + string" where
  "build_context search_results =
     (case context_parts 1 search_results of
        Inl err \<Rightarrow> Inl err
      | Inr parts \<Rightarrow> Inr (join (newline @ newline) parts))"

fun collect_citations :: "'d search_result list \<Rightarrow> string list \<Rightarrow> py_error + string list" where
  "collect_citations [] sources = Inr sources"
| "collect_citations (r # rs) sources =
     (case meta_get (result_metadata r) ''source_file'' of
        Inl err \<Rightarrow> Inl err
      | Inr source \<Rightarrow>
          (case meta_get (result_metadata r) ''page_number'' of
             Inl err \<Rightarrow> Inl err
           | Inr page \<Rightarrow>
               (let citation = str_meta source @ '' (Page '' @ str_meta page @ '')''
                in if citation \<notin> set sources
                   then collect_citations rs (sources @ [citation])
                   else collect_citations rs sources)))"

definition rag_system_prompt :: string where
  "rag_system_prompt =
     ''You are a helpful research assistant. Answer questions based on the provided document context.''
     @ newline @ ''If the context doesn'' @ [CHR 0x27]
     @ ''t contain enough information to answer the question, say so.''
     @ newline @ ''Always cite which source(s) you used in your answer.''"

definition rag_user_prompt :: "string \<Rightarrow> string \<Rightarrow> string" where
  "rag_user_prompt question context =
     ''Context from documents:'' @ newline @ context @ newline @ newline
     @ ''Question: '' @ question @ newline @ newline
     @ ''Provide a clear, accurate answer based on the context above.''"

definition generate_response ::
  "'s completion_service \<Rightarrow> string \<Rightarrow> string \<Rightarrow> 'd search_result list \<Rightarrow> rag_run" where
  "generate_response completions question context search_results =
     (let messages = [SystemMessage rag_system_prompt,
                      UserMessage (rag_user_prompt question context)]
      in case completions messages None of
           Inl err \<Rightarrow> \<lparr>rag_result = Inl err, rag_completions = [messages]\<rparr>
         | Inr reply \<Rightarrow>
             (let answer = (case content reply of None \<Rightarrow> ''None'' | Some a \<Rightarrow> a)
              in case collect_citations search_results [] of
                   Inl err \<Rightarrow> \<lparr>rag_result = Inl err, rag_completions = [messages]\<rparr>
                 | Inr sources \<Rightarrow>
                     \<lparr>rag_result = Inr (answer @ newline @ newline @ ''**Sources:** ''
                                          @ join '', '' sources),
                      rag_completions = [messages]\<rparr>))"

definition no_documents_message :: string where
  "no_documents_message = ''No relevant documents found to answer your question.''"

definition rag_query ::
  "'e embedding_service \<Rightarrow> ('e \<Rightarrow> 'e \<Rightarrow> 'd::linorder) \<Rightarrow> 's completion_service
     \<Rightarrow> 'e VectorStore \<Rightarrow> string \<Rightarrow> int option \<Rightarrow> rag_run" where
  "rag_query service distance completions vector_store question top_k_arg =
     (case search service distance vector_store question top_k_arg of
        Inl err \<Rightarrow> \<lparr>rag_result = Inl err, rag_completions = []\<rparr>
      | Inr search_results \<Rightarrow>
          (if search_results = []
           then \<lparr>rag_result = Inr no_documents_message, rag_completions = []\<rparr>
           else case build_context search_results of
                  Inl err \<Rightarrow> \<lparr>rag_result = Inl err, rag_completions = []\<rparr>
                | Inr context \<Rightarrow> generate_response completions question context search_results))"


section \<open>Tool provider: \<open>MCPClient\<close> (src/mcp/client.py)\<close>

record 's MCPTool =
  tool_name :: string
  tool_description :: string
  input_schema :: 's
  server_name :: string

text \<open>
  A connected session is a parameter: \<open>session name arguments\<close> is either the message of
  the exception that the remote call raised, or the content items of its result, each with
  its \<open>text\<close> attribute if it has one.
\<close>

type_synonym 'j session = "string \<Rightarrow> 'j \<Rightarrow> string + string option list"

record ('j, 's) MCPClient =
  sessions :: "(string \<times> 'j session) list"
  tools :: "'s MCPTool list"

definition get_openai_tools :: "('j, 's) MCPClient \<Rightarrow> 's tool_declaration list" where
  "get_openai_tools self =
     map (\<lambda>tool. \<lparr>decl_name = tool_name tool, decl_description = tool_description tool,
                   decl_parameters = input_schema tool\<rparr>) (tools self)"

fun call_tool_scan ::
  "(string \<times> 'j session) list \<Rightarrow> 's MCPTool list \<Rightarrow> string \<Rightarrow> 'j \<Rightarrow> string" where
  "call_tool_scan sess [] name arguments =
     ''Tool '' @ [CHR 0x27] @ name @ [CHR 0x27] @ '' not found''"
| "call_tool_scan sess (tool # rest) name arguments =
     (if tool_name tool = name then
        (case map_of sess (server_name tool) of
           None \<Rightarrow> call_tool_scan sess rest name arguments
         | Some session \<Rightarrow>
             (case session name arguments of
                Inl e \<Rightarrow> ''Tool error: '' @ e
              | Inr items \<Rightarrow> join newline [t. Some t \<leftarrow> items]))
      else call_tool_scan sess rest name arguments)"

definition call_tool :: "('j, 's) MCPClient \<Rightarrow> string \<Rightarrow> 'j \<Rightarrow> string" where
  "call_tool self name arguments = call_tool_scan (sessions self) (tools self) name arguments"

section \<open>Tool-calling loop: \<open>BaseAgent.process_async\<close> (src/agents/specialized.py)\<close>

record ('j, 's) BaseAgent =
  system_prompt :: string
  mcp_client :: "('j, 's) MCPClient option"
  max_iterations :: int

definition BaseAgent_init :: "string \<Rightarrow> ('j, 's) MCPClient option \<Rightarrow> ('j, 's) BaseAgent" where
  "BaseAgent_init prompt client =
     \<lparr>system_prompt = prompt, mcp_client = client, max_iterations = 10\<rparr>"

definition QAAgent :: "('j, 's) MCPClient option \<Rightarrow> ('j, 's) BaseAgent" where
  "QAAgent client = BaseAgent_init
     (''You are a precise Q&A agent. Use the available tools to search documents and answer questions.''
      @ newline @ ''Always search for relevant information before answering.''
      @ newline @ ''Cite sources in your response.'') client"


definition ComparisonAgent :: "('j, 's) MCPClient option \<Rightarrow> ('j, 's) BaseAgent" where
  "ComparisonAgent client = BaseAgent_init
     (''You are a comparison agent. Use the available tools to find information about different concepts.''
      @ newline @ ''Search for each concept separately to gather complete information.''
      @ newline @ ''Present comparisons in structured format (tables when helpful).'') client"

text \<open>
  The state of one invocation: the conversation, the number of completion requests issued
  so far, and the tool invocations handed to the tool provider so far.
\<close>

record 'j loop_state =
  messages :: "message list"
  requests :: nat
  dispatched :: "(string \<times> 'j) list"

text \<open>
  \<open>json.loads\<close> is a parameter \<open>loads\<close>: \<open>None\<close> stands for the \<open>JSONDecodeError\<close> it raises
  on a string that is not JSON. The inner \<open>for tool_call in message.tool_calls\<close> loop:
\<close>

fun dispatch_tool_calls ::
  "(string \<Rightarrow> 'j option) \<Rightarrow> ('j, 's) MCPClient \<Rightarrow> tool_call list \<Rightarrow> 'j loop_state
     \<Rightarrow> py_error option \<times> 'j loop_state" where
  "dispatch_tool_calls loads client [] st = (None, st)"
| "dispatch_tool_calls loads client (tc # tcs) st =
     (case loads (call_arguments tc) of
        None \<Rightarrow> (Some JSONDecodeError, st)
      | Some arguments \<Rightarrow>
          (let result = call_tool client (call_name tc) arguments
           in dispatch_tool_calls loads client tcs
                (st\<lparr>messages := messages st @ [ToolMessage (call_id tc) result],
                    dispatched := dispatched st @ [(call_name tc, arguments)]\<rparr>)))"

definition max_iterations_message :: string where
  "max_iterations_message = ''Max iterations reached''"

text \<open>The \<open>for iteration in range(self.max_iterations)\<close> loop, by the iterations left.\<close>

fun tool_loop ::
  "(string \<Rightarrow> 'j option) \<Rightarrow> 's completion_service \<Rightarrow> ('j, 's) BaseAgent
     \<Rightarrow> 's tool_declaration list \<Rightarrow> nat \<Rightarrow> 'j loop_state
     \<Rightarrow> (py_error + string option) \<times> 'j loop_state" where
  "tool_loop loads completions self decls 0 st = (Inr (Some max_iterations_message), st)"
| "tool_loop loads completions self decls (Suc n) st =
     (let st = st\<lparr>requests := Suc (requests st)\<rparr>
      in case completions (messages st) (if decls \<noteq> [] then Some decls else None) of
           Inl err \<Rightarrow> (Inl err, st)
         | Inr message \<Rightarrow>
             (case tool_calls message of
                None \<Rightarrow> (Inr (content message), st)
              | Some calls \<Rightarrow>
                  (if calls = [] then (Inr (content message), st)
                   else case mcp_client self of
                          None \<Rightarrow> (Inr (content message), st)
                        | Some client \<Rightarrow>
                            (case dispatch_tool_calls loads client calls
                                    (st\<lparr>messages := messages st @ [AssistantMessage message]\<rparr>) of
                               (Some err, st') \<Rightarrow> (Inl err, st')
                             | (None, st') \<Rightarrow> tool_loop loads completions self decls n st'))))"

definition process_async ::
  "(string \<Rightarrow> 'j option) \<Rightarrow> 's completion_service \<Rightarrow> ('j, 's) BaseAgent \<Rightarrow> string
     \<Rightarrow> (py_error + string option) \<times> 'j loop_state" where
  "process_async loads completions self query =
     (let decls = (case mcp_client self of None \<Rightarrow> [] | Some client \<Rightarrow> get_openai_tools client)
      in tool_loop loads completions self decls (nat (max_iterations self))
           \<lparr>messages = [SystemMessage (system_prompt self), UserMessage query],
            requests = 0, dispatched = []\<rparr>)"


section \<open>Concrete inputs\<close>

text \<open>
  An embedding service that answers full batches only, with the length of each text as
  its embedding; a distance on these embeddings; an empty store.
\<close>

definition example_service :: "nat embedding_service" where
  "example_service batch =
     (if length batch = BATCH_SIZE then Inr (map length batch) else Inl EmbeddingServiceError)"

definition length_service :: "nat embedding_service" where
  "length_service batch = Inr (map length batch)"

definition example_distance :: "nat \<Rightarrow> nat \<Rightarrow> nat" where
  "example_distance a b = (if a < b then b - a else a - b)"

definition example_chunk :: "int \<Rightarrow> TextChunk" where
  "example_chunk i =
     \<lparr>chunk_text = ''some text'', page_number = 1, chunk_index = i, source_file = ''a.pdf''\<rparr>"

definition empty_store :: "nat VectorStore" where
  "empty_store = \<lparr>collection = [], top_k = 5\<rparr>"

text \<open>A text of 1002 characters: \<open>a\<close>, a space, and a word of 1000 letters.\<close>

definition filler :: string where
  "filler = replicate 1000 (CHR ''b'')"

definition long_text :: string where
  "long_text = ''a '' @ filler"

text \<open>
  A completion service that always answers with one call of the tool \<open>search\<close> and no
  content, the arguments string being a parameter; a parser that rejects the empty string;
  an agent without tool provider.
\<close>

definition calling_service :: "string \<Rightarrow> unit completion_service" where
  "calling_service arguments conversation decls =
     Inr \<lparr>content = None,
          tool_calls = Some [\<lparr>call_id = ''call_1'', call_name = ''search'',
                              call_arguments = arguments\<rparr>]\<rparr>"

definition example_loads :: "string \<Rightarrow> string option" where
  "example_loads s = (if s = [] then None else Some s)"

definition lone_agent :: "(string, unit) BaseAgent" where
  "lone_agent = QAAgent None"

text \<open>
  A tool provider with one session \<open>docs\<close> that declares the tool \<open>search\<close>; agents with
  and without it; a completion service whose second call carries arguments that the parser
  rejects.
\<close>

definition example_client :: "(string, unit) MCPClient" where
  "example_client =
     \<lparr>sessions = [(''docs'', \<lambda>name arguments. Inr [Some (''found: '' @ arguments)])],
      tools = [\<lparr>tool_name = ''search'', tool_description = ''Search documents'',
                input_schema = (), server_name = ''docs''\<rparr>]\<rparr>"

definition provided_agent :: "(string, unit) BaseAgent" where
  "provided_agent = QAAgent (Some example_client)"


definition mixed_service :: "unit completion_service" where
  "mixed_service conversation decls =
     Inr \<lparr>content = Some ''searching'',
          tool_calls = Some [\<lparr>call_id = ''call_1'', call_name = ''search'', call_arguments = ''{}''\<rparr>,
                             \<lparr>call_id = ''call_2'', call_name = ''search'', call_arguments = ''''\<rparr>,
                             \<lparr>call_id = ''call_3'', call_name = ''lookup'', call_arguments = ''[]''\<rparr>]\<rparr>"

text \<open>A store that holds one chunk of \<open>a.pdf\<close> and one of \<open>b.pdf\<close>.\<close>

definition chunk_a :: TextChunk where
  "chunk_a = \<lparr>chunk_text = ''alpha'', page_number = 1, chunk_index = 0, source_file = ''a.pdf''\<rparr>"

definition chunk_b :: TextChunk where
  "chunk_b =
     \<lparr>chunk_text = ''beta beta'', page_number = 2, chunk_index = 0, source_file = ''b.pdf''\<rparr>"

definition two_store :: "nat VectorStore" where
  "two_store = snd (add_chunks length_service empty_store [chunk_a, chunk_b] False)"

text \<open>The same store with a default \<open>top_k\<close> of 1.\<close>

definition narrow_store :: "nat VectorStore" where
  "narrow_store = two_store\<lparr>top_k := 1\<rparr>"

section \<open>Notions used in the statements\<close>

text \<open>
  The tool-role messages that the inner loop appends for a list of calls whose arguments
  all parse: one per call, in order, carrying the provider's result.
\<close>

definition tool_messages ::
  "(string \<Rightarrow> 'j option) \<Rightarrow> ('j, 's) MCPClient \<Rightarrow> tool_call list \<Rightarrow> message list" where
  "tool_messages loads client calls =
     map (\<lambda>tc. ToolMessage (call_id tc)
                  (call_tool client (call_name tc) (the (loads (call_arguments tc))))) calls"

text \<open>The tool invocations handed to the provider for such a list of calls.\<close>

definition tool_invocations ::
  "(string \<Rightarrow> 'j option) \<Rightarrow> tool_call list \<Rightarrow> (string \<times> 'j) list" where
  "tool_invocations loads calls =
     map (\<lambda>tc. (call_name tc, the (loads (call_arguments tc)))) calls"

text \<open>The calls of a response that come before the first one whose arguments do not parse.\<close>

definition parsed_prefix :: "(string \<Rightarrow> 'j option) \<Rightarrow> tool_call list \<Rightarrow> tool_call list" where
  "parsed_prefix loads calls = takeWhile (\<lambda>c. loads (call_arguments c) \<noteq> None) calls"

text \<open>The predicate of \<open>delete_document\<close>: the metadata names \<open>f\<close> as its source file.\<close>

definition from_source :: "string \<Rightarrow> metadata option \<Rightarrow> bool" where
  "from_source f m = metadata_matches ''source_file'' (MStr f) m"

text \<open>
  The overlap of two consecutive chunks as the specification words it: the last \<open>ov\<close>
  characters of the first chunk are the first \<open>ov\<close> characters of the second.
\<close>

definition overlap_is_prefix :: "nat \<Rightarrow> string \<Rightarrow> string \<Rightarrow> bool" where
  "overlap_is_prefix ov c1 c2 = (ov \<le> length c1 \<and> take ov c2 = drop (length c1 - ov) c1)"

text \<open>The same, asked only of two chunks that both have at least \<open>ov\<close> characters.\<close>

definition shares_overlap :: "nat \<Rightarrow> string \<Rightarrow> string \<Rightarrow> bool" where
  "shares_overlap ov c1 c2 =
     (ov \<le> length c1 \<and> ov \<le> length c2 \<longrightarrow> take ov c2 = drop (length c1 - ov) c1)"

text \<open>
  A chunk \<open>c\<close> of at least \<open>ov \<ge> 1\<close> characters starts at the cursor \<open>s\<close>: the cursor is a
  position of the text and the chunk begins with the \<open>ov\<close> characters found there.
\<close>

definition starts_at :: "nat \<Rightarrow> string \<Rightarrow> int \<Rightarrow> string \<Rightarrow> bool" where
  "starts_at ov text s c =
     (1 \<le> ov \<and> ov \<le> length c \<longrightarrow>
        0 \<le> s \<and> nat s + ov \<le> length text \<and> take ov c = take ov (drop (nat s) text))"

text \<open>
  The chunks that the loop appends from a cursor on, without the accumulator; used in the
  proofs only, and related to \<open>split_loop\<close> by \<open>split_loop_segments\<close> below.
\<close>

fun segments :: "nat \<Rightarrow> PDFExtractor \<Rightarrow> string \<Rightarrow> int \<Rightarrow> string list option" where
  "segments 0 self text start = None"
| "segments (Suc fuel) self text start =
     (if start < int (length text) then
        let e = segment_end (chunk_size self) text start
        in map_option ((#) (py_slice text start e))
             (segments fuel self text (e - chunk_overlap self))
      else Some [])"

section \<open>Chunker: searching and cursor arithmetic\<close>

lemma rfind_scan_lower: "- 1 \<le> rfind_scan xs sub a k"
  by (induction k) auto

lemma rfind_lower: "- 1 \<le> rfind xs sub i j"
  by (simp add: rfind_def Let_def rfind_scan_lower)

lemma rfind_scan_none:
  "(\<And>p. take (length sub) (drop p xs) \<noteq> sub) \<Longrightarrow> rfind_scan xs sub a k = - 1"
  by (induction k) simp_all

lemma rfind_none:
  "(\<And>p. take (length sub) (drop p xs) \<noteq> sub) \<Longrightarrow> rfind xs sub i j = - 1"
  by (simp add: rfind_def Let_def rfind_scan_none)

lemma rfind_scan_last:
  assumes "a \<le> p" and "p < a + k"
    and "take (length sub) (drop p xs) = sub"
    and "\<And>q. p < q \<Longrightarrow> take (length sub) (drop q xs) \<noteq> sub"
  shows "rfind_scan xs sub a k = int p"
  using assms(2)
proof (induction k)
  case 0
  with assms(1) show ?case by simp
next
  case (Suc k)
  show ?case
  proof (cases "a + k = p")
    case True
    with assms(3) show ?thesis by simp
  next
    case False
    with Suc.prems have "p < a + k" by simp
    with Suc.IH assms(4) [of "a + k"] show ?thesis by simp
  qed
qed

lemma rfind_last:
  fixes a b p :: nat
  assumes "a \<le> p" and "p + length sub \<le> b" and "b \<le> length xs"
    and "take (length sub) (drop p xs) = sub"
    and "\<And>q. p < q \<Longrightarrow> take (length sub) (drop q xs) \<noteq> sub"
  shows "rfind xs sub (int a) (int b) = int p"
proof -
  have a: "adjust_index (int a) (length xs) = a" and b: "adjust_index (int b) (length xs) = b"
    using assms(1,2,3) by (simp_all add: adjust_index_def)
  have k: "p < a + Suc (b - length sub - a)" using assms(1,2) by arith
  have "rfind_scan xs sub a (Suc (b - length sub - a)) = int p"
    using assms(1) k assms(4,5) by (rule rfind_scan_last)
  moreover have "\<not> b < a + length sub" using assms(1,2) by arith
  ultimately show ?thesis
    unfolding rfind_def Let_def a b by (simp only: if_False)
qed

lemma no_occurrence:
  assumes "c \<notin> set xs"
  shows "take (Suc n) (drop p xs) \<noteq> c # rest"
proof
  assume "take (Suc n) (drop p xs) = c # rest"
  then have "c \<in> set (take (Suc n) (drop p xs))" by simp
  then have "c \<in> set xs"
    by (meson in_set_dropD in_set_takeD)
  with assms show False by simp
qed

lemma rfind_empty_range:
  assumes "start < 0" and "- cs < start" and "cs < int (length text)"
  shows "rfind text sub start (start + cs) = - 1"
proof -
  have "adjust_index (start + cs) (length text) < adjust_index start (length text)"
    using assms by (auto simp: adjust_index_def)
  then show ?thesis by (simp add: rfind_def Let_def)
qed

lemma segment_end_nonneg:
  assumes "- cs < start"
  shows "0 \<le> segment_end cs text start"
proof -
  have a: "- 1 \<le> rfind text ''. '' start (start + cs)" by (rule rfind_lower)
  have b: "- 1 \<le> rfind text '' '' start (start + cs)" by (rule rfind_lower)
  from assms a b show ?thesis
    by (auto simp: segment_end_def Let_def)
qed

lemma segment_end_negative:
  assumes "start < 0" and "- cs < start" and "cs < int (length text)"
  shows "segment_end cs text start = (if start < - 1 then 0 else start + cs)"
  using assms by (simp add: segment_end_def Let_def rfind_empty_range)

section \<open>Chunker: termination\<close>

text \<open>
  Every segment ends after its cursor. Without overlap the cursor therefore advances in
  every iteration and the split returns, with fuel for one iteration per character.
\<close>

lemma segment_end_advances:
  assumes "0 < cs"
  shows "start < segment_end cs text start"
  using assms by (auto simp: segment_end_def Let_def)

lemma split_loop_returns_without_overlap:
  assumes "0 < chunk_size self" and "chunk_overlap self = 0"
  shows "nat (int (length text) - start) < fuel \<Longrightarrow>
         \<exists>result. split_loop fuel self text start chunks = Some result"
proof (induction fuel arbitrary: start chunks)
  case 0
  then show ?case by simp
next
  case (Suc fuel)
  show ?case
  proof (cases "start < int (length text)")
    case False
    then show ?thesis by simp
  next
    case True
    let ?e = "segment_end (chunk_size self) text start"
    have "start < ?e" using assms(1) by (rule segment_end_advances)
    with True Suc.prems have "nat (int (length text) - (?e - chunk_overlap self)) < fuel"
      using assms(2) by linarith
    from Suc.IH [OF this] True show ?thesis by (simp add: Let_def)
  qed
qed

lemma split_text_returns_without_overlap:
  assumes "0 < chunk_size self" and "chunk_overlap self = 0"
  shows "\<exists>chunks. split_text (Suc (length text)) self text = Some chunks"
proof (cases "int (length text) \<le> chunk_size self")
  case True
  then show ?thesis by (simp add: split_text_def)
next
  case False
  have "nat (int (length text) - 0) < Suc (length text)" by simp
  from split_loop_returns_without_overlap [OF assms this, of "[]"] False
  show ?thesis by (simp add: split_text_def)
qed

text \<open>A cursor that the loop body maps to itself is never left.\<close>

lemma split_loop_fixed_cursor:
  assumes "start < int (length text)"
    and "segment_end (chunk_size self) text start - chunk_overlap self = start"
  shows "split_loop fuel self text start chunks = None"
  using assms by (induction fuel arbitrary: chunks) (simp_all add: Let_def)

text \<open>
  Word boundary close to the cursor: with chunk size 3 and overlap 2 the text \<open>a bcdefg\<close>
  has its only space at index 1, the first segment ends at 2 and the cursor returns to 0.
\<close>

lemma segment_end_stuck: "segment_end 3 ''a bcdefg'' 0 = 2"
  by code_simp

lemma split_text_word_boundary_never_returns:
  "split_text fuel (PDFExtractor_init 3 2) ''a bcdefg'' = None"
proof -
  have "split_loop fuel (PDFExtractor_init 3 2) ''a bcdefg'' 0 [] = None"
    by (rule split_loop_fixed_cursor) (simp_all add: PDFExtractor_init_def segment_end_stuck)
  then show ?thesis by (simp add: split_text_def PDFExtractor_init_def)
qed

text \<open>
  Sentence boundary close to the cursor: with chunk size 10 and overlap 3 the cursor of
  \<open>Hello there. This is a test.\<close> goes 0, 3, 9 and then stays at 9, where the segment
  ends after the full stop at index 11.
\<close>

lemma sentence_ends:
  "segment_end 10 ''Hello there. This is a test.'' 0 = 6"
  "segment_end 10 ''Hello there. This is a test.'' 3 = 12"
  "segment_end 10 ''Hello there. This is a test.'' 9 = 12"
  by code_simp+

lemma split_text_sentence_boundary_never_returns:
  "split_text fuel (PDFExtractor_init 10 3) ''Hello there. This is a test.'' = None"
proof -
  let ?self = "PDFExtractor_init 10 3"
  let ?text = "''Hello there. This is a test.''"
  have stuck: "split_loop f ?self ?text 9 chunks = None" for f chunks
    by (rule split_loop_fixed_cursor) (simp_all add: PDFExtractor_init_def sentence_ends)
  have "split_loop fuel ?self ?text 0 [] = None"
  proof (cases fuel)
    case 0
    then show ?thesis by simp
  next
    case (Suc f1)
    show ?thesis
    proof (cases f1)
      case 0
      with Suc show ?thesis by (simp add: PDFExtractor_init_def sentence_ends)
    next
      case (Suc f2)
      with \<open>fuel = Suc f1\<close> show ?thesis
        using stuck by (simp add: PDFExtractor_init_def sentence_ends)
    qed
  qed
  then show ?thesis by (simp add: split_text_def PDFExtractor_init_def)
qed

text \<open>
  The default configuration, chunk size 1000 and overlap 200, on a text of 1002 characters:
  \<open>a\<close>, a space, and a word of 1000 letters. The only word boundary of the first window
  is at index 1, so the first segment ends at 2 and the cursor becomes \<open>2 - 200 = -198\<close>.
  From a negative cursor both searches look at an empty range and return \<open>-1\<close>, which is
  greater than the cursor; the segment ends at 0 and the cursor becomes \<open>-200\<close>, and stays
  there.
\<close>

lemma filler_length: "length filler = 1000"
  unfolding filler_def by (rule length_replicate)

lemma filler_chars: "c \<in> set filler \<Longrightarrow> c = CHR ''b''"
  unfolding filler_def by (simp only: in_set_replicate)

lemma long_text_length: "length long_text = 1002"
  by (simp add: long_text_def filler_length)

lemma long_text_no_sentence: "take (length ''. '') (drop p long_text) \<noteq> ''. ''"
proof -
  have "CHR ''.'' \<notin> set long_text"
    using filler_chars [of "CHR ''.''"] by (auto simp: long_text_def)
  from no_occurrence [OF this, of 1 p "'' ''"] show ?thesis by simp
qed

lemma long_text_space: "take (length '' '') (drop 1 long_text) = '' ''"
  by (simp add: long_text_def)

lemma long_text_no_later_space:
  assumes "1 < q"
  shows "take (length '' '') (drop q long_text) \<noteq> '' ''"
proof -
  define r where "r = q - 2"
  have q: "q = Suc (Suc r)" using assms by (simp add: r_def)
  have d: "drop q long_text = drop r filler"
    by (simp add: long_text_def q)
  have "CHR '' '' \<notin> set filler"
    using filler_chars [of "CHR '' ''"] by auto
  from no_occurrence [OF this, of 0 r "[]"] show ?thesis by (simp add: d)
qed

lemma long_text_first_end: "segment_end 1000 long_text 0 = 2"
proof -
  have a: "rfind long_text ''. '' 0 1000 = - 1"
    by (rule rfind_none [OF long_text_no_sentence])
  have "rfind long_text '' '' (int 0) (int 1000) = int 1"
    by (rule rfind_last [OF _ _ _ long_text_space long_text_no_later_space])
       (simp_all add: long_text_length)
  then have b: "rfind long_text '' '' 0 1000 = 1" by simp
  show ?thesis
    by (simp add: segment_end_def long_text_length a b)
qed

lemma long_text_stuck:
  "split_loop fuel PDFExtractor_default long_text (- 200) chunks = None"
proof (rule split_loop_fixed_cursor)
  show "- 200 < int (length long_text)" by (simp add: long_text_length)
  have "segment_end 1000 long_text (- 200) = 0"
    by (simp add: segment_end_negative long_text_length)
  then show "segment_end (chunk_size PDFExtractor_default) long_text (- 200)
               - chunk_overlap PDFExtractor_default = - 200"
    by (simp add: PDFExtractor_default_def PDFExtractor_init_def)
qed

text \<open>
  C1: for every text and every configuration with \<open>chunk_size > 0\<close> and
  \<open>0 \<le> overlap < chunk_size\<close> the split terminates. The code does not: under the default
  configuration the split of \<open>long_text\<close> returns for no amount of fuel, because a break
  point less than \<open>overlap\<close> characters after the cursor moves the cursor backwards.
\<close>

theorem split_text_default_never_returns:
  "split_text fuel PDFExtractor_default long_text = None"
proof -
  have cfg: "chunk_size PDFExtractor_default = 1000" "chunk_overlap PDFExtractor_default = 200"
    by (simp_all add: PDFExtractor_default_def PDFExtractor_init_def)
  have second: "segment_end 1000 long_text (- 198) = 0"
    by (simp add: segment_end_negative long_text_length)
  have "split_loop fuel PDFExtractor_default long_text 0 [] = None"
  proof (cases fuel)
    case 0
    then show ?thesis by simp
  next
    case (Suc f1)
    show ?thesis
    proof (cases f1)
      case 0
      with Suc show ?thesis
        by (simp add: cfg long_text_length long_text_first_end)
    next
      case (Suc f2)
      with \<open>fuel = Suc f1\<close> show ?thesis
        by (simp add: cfg long_text_length long_text_first_end second long_text_stuck)
    qed
  qed
  then show ?thesis
    by (simp add: split_text_def cfg long_text_length)
qed

section \<open>Chunker: overlap of consecutive chunks\<close>

lemma split_loop_segments:
  "split_loop fuel self text start chunks =
     map_option ((@) chunks) (segments fuel self text start)"
proof (induction fuel arbitrary: start chunks)
  case 0
  show ?case by simp
next
  case (Suc fuel)
  show ?case
    by (cases "segments fuel self text (segment_end (chunk_size self) text start - chunk_overlap self)")
       (simp_all add: Suc.IH Let_def)
qed

lemma negative_start_empty:
  assumes "start < 0" and "- cs < start" and "cs < int (length text)"
  shows "py_slice text start (segment_end cs text start) = []"
proof -
  have e: "segment_end cs text start = (if - 1 > start then 0 else start + cs)"
    using assms by (simp add: segment_end_def Let_def rfind_empty_range)
  have "adjust_index (segment_end cs text start) (length text) \<le> adjust_index start (length text)"
    using assms unfolding e by (auto simp: adjust_index_def)
  then show ?thesis by (simp add: py_slice_def Let_def)
qed

lemma py_slice_nonneg:
  assumes "0 \<le> s" and "s < int (length text)" and "0 \<le> e"
  shows "py_slice text s e = take (min (nat e) (length text) - nat s) (drop (nat s) text)"
  using assms by (simp add: py_slice_def adjust_index_def Let_def min_def)

lemma chunk_starts_at:
  assumes "- cs < s" and "cs < int (length text)" and "s < int (length text)"
  shows "starts_at ov text s (py_slice text s (segment_end cs text s))"
proof (cases "s < 0")
  case True
  with assms have "py_slice text s (segment_end cs text s) = []"
    by (simp add: negative_start_empty)
  then show ?thesis by (simp add: starts_at_def)
next
  case False
  then have s: "0 \<le> s" by simp
  have e: "0 \<le> segment_end cs text s" using assms(1) by (rule segment_end_nonneg)
  from py_slice_nonneg [OF s assms(3) e] show ?thesis
    by (auto simp: starts_at_def s)
qed

lemma suffix_of_slice:
  fixes st en ov :: nat
  assumes "ov \<le> en - st" and "st \<le> en"
  shows "drop (en - st - ov) (take (en - st) (drop st xs)) = take ov (drop (en - ov) xs)"
proof -
  have a: "en - st - (en - st - ov) = ov" using assms by arith
  have b: "en - st - ov + st = en - ov" using assms by arith
  have "drop (en - st - ov) (take (en - st) (drop st xs))
          = take (en - st - (en - st - ov)) (drop (en - st - ov) (drop st xs))"
    by (rule drop_take)
  also have "\<dots> = take ov (drop (en - st - ov + st) xs)"
    by (simp only: a drop_drop)
  finally show ?thesis by (simp only: b)
qed

lemma chunk_then_next:
  assumes "- cs < s" and "cs < int (length text)" and "s < int (length text)"
    and "starts_at ov text (segment_end cs text s - int ov) c2"
  shows "shares_overlap ov (py_slice text s (segment_end cs text s)) c2"
proof (cases "1 \<le> ov \<and> ov \<le> length (py_slice text s (segment_end cs text s)) \<and> ov \<le> length c2")
  case False
  then show ?thesis by (auto simp: shares_overlap_def)
next
  case True
  let ?e = "segment_end cs text s"
  let ?c = "py_slice text s ?e"
  from True have ne: "?c \<noteq> []" by auto
  have s: "0 \<le> s"
  proof (rule ccontr)
    assume "\<not> 0 \<le> s"
    with assms have "?c = []" by (simp add: negative_start_empty)
    with ne show False by simp
  qed
  have e: "0 \<le> ?e" using assms(1) by (rule segment_end_nonneg)
  have c: "?c = take (min (nat ?e) (length text) - nat s) (drop (nat s) text)"
    by (rule py_slice_nonneg [OF s assms(3) e])
  from assms(4) True have n: "0 \<le> ?e - int ov" "nat (?e - int ov) + ov \<le> length text"
    and t: "take ov c2 = take ov (drop (nat (?e - int ov)) text)"
    by (auto simp: starts_at_def)
  from n have le: "nat ?e \<le> length text" and ove: "ov \<le> nat ?e" by linarith+
  from True c le have len: "length ?c = nat ?e - nat s" and ovl: "ov \<le> nat ?e - nat s"
    using assms(3) s by auto
  have se: "nat s \<le> nat ?e" using True ovl by linarith
  have "drop (length ?c - ov) ?c = take ov (drop (nat ?e - ov) text)"
  proof -
    have "drop (length ?c - ov) ?c
            = drop (nat ?e - nat s - ov) (take (nat ?e - nat s) (drop (nat s) text))"
      using c le len by (simp add: min_def)
    also have "\<dots> = take ov (drop (nat ?e - ov) text)"
      using ovl se by (rule suffix_of_slice)
    finally show ?thesis .
  qed
  moreover have "nat (?e - int ov) = nat ?e - ov" using n(1) by linarith
  ultimately show ?thesis using t by (simp add: shares_overlap_def)
qed

lemma segments_share_overlap:
  assumes "0 \<le> chunk_overlap self" and "chunk_overlap self < chunk_size self"
    and "chunk_size self < int (length text)"
  shows "- chunk_overlap self \<le> s \<Longrightarrow> segments fuel self text s = Some new \<Longrightarrow>
         successively (shares_overlap (nat (chunk_overlap self))) new
         \<and> (new \<noteq> [] \<longrightarrow> starts_at (nat (chunk_overlap self)) text s (hd new))"
proof (induction fuel arbitrary: s new)
  case 0
  then show ?case by simp
next
  case (Suc fuel)
  let ?ov = "nat (chunk_overlap self)"
  let ?e = "segment_end (chunk_size self) text s"
  show ?case
  proof (cases "s < int (length text)")
    case False
    with Suc.prems show ?thesis by simp
  next
    case True
    with Suc.prems(2) obtain rest where
      rest: "segments fuel self text (?e - chunk_overlap self) = Some rest"
      and new: "new = py_slice text s ?e # rest"
      by (auto simp: Let_def)
    have cs: "- chunk_size self < s" using Suc.prems(1) assms(2) by simp
    have "0 \<le> ?e" using cs by (rule segment_end_nonneg)
    then have "- chunk_overlap self \<le> ?e - chunk_overlap self" by simp
    from Suc.IH [OF this rest] have
      ih1: "successively (shares_overlap ?ov) rest"
      and ih2: "rest \<noteq> [] \<longrightarrow> starts_at ?ov text (?e - chunk_overlap self) (hd rest)"
      by simp_all
    have ovint: "int ?ov = chunk_overlap self" using assms(1) by simp
    have hd: "starts_at ?ov text s (py_slice text s ?e)"
      using cs assms(3) True by (rule chunk_starts_at)
    have "successively (shares_overlap ?ov) (py_slice text s ?e # rest)"
    proof (cases rest)
      case Nil
      then show ?thesis by simp
    next
      case (Cons c2 rest')
      with ih2 have "starts_at ?ov text (?e - chunk_overlap self) c2" by simp
      then have "starts_at ?ov text (?e - int ?ov) c2" by (simp only: ovint)
      with cs assms(3) True have "shares_overlap ?ov (py_slice text s ?e) c2"
        by (rule chunk_then_next)
      with ih1 Cons show ?thesis by simp
    qed
    with hd new show ?thesis by simp
  qed
qed

text \<open>
  C5, as the code has it: for a split with \<open>0 \<le> overlap < chunk_size\<close>, any two consecutive
  chunks (before trimming) that both have at least \<open>overlap\<close> characters share them: the
  last \<open>overlap\<close> characters of the first are the first \<open>overlap\<close> characters of the second.
\<close>

theorem consecutive_chunks_share_overlap:
  assumes "0 \<le> chunk_overlap self" and "chunk_overlap self < chunk_size self"
    and "split_text fuel self text = Some chunks"
  shows "successively (shares_overlap (nat (chunk_overlap self))) chunks"
proof (cases "int (length text) \<le> chunk_size self")
  case True
  with assms(3) show ?thesis by (auto simp: split_text_def split: if_splits)
next
  case False
  with assms(3) obtain new where
    new: "segments fuel self text 0 = Some new" and chunks: "chunks = new"
    by (auto simp: split_text_def split_loop_segments)
  from False have "chunk_size self < int (length text)" by simp
  from segments_share_overlap [OF assms(1,2) this _ new] assms(1) chunks
  show ?thesis by simp
qed

theorem consecutive_chunks_share_overlap_witness:
  "split_text 6 (PDFExtractor_init 12 3) ''one two three four five six'' =
     Some [''one two '', ''wo three '', ''ee four '', ''ur five six'', ''ix'']
   \<and> successively (shares_overlap 3)
        [''one two '', ''wo three '', ''ee four '', ''ur five six'', ''ix'']
   \<and> overlap_is_prefix 3 ''one two '' ''wo three ''"
proof -
  let ?self = "PDFExtractor_init 12 3"
  have a: "0 \<le> chunk_overlap ?self" by (simp add: PDFExtractor_init_def)
  have b: "chunk_overlap ?self < chunk_size ?self" by (simp add: PDFExtractor_init_def)
  have c: "split_text 6 ?self ''one two three four five six'' =
     Some [''one two '', ''wo three '', ''ee four '', ''ur five six'', ''ix'']"
    by code_simp
  have d: "nat (chunk_overlap ?self) = 3" by (simp add: PDFExtractor_init_def)
  have e: "overlap_is_prefix 3 ''one two '' ''wo three ''" by code_simp
  show ?thesis
    using c d e consecutive_chunks_share_overlap [OF a b c] by simp
qed

theorem overlap_counterexample:
  "split_text 5 (PDFExtractor_init 4 2) ''abcdefg'' = Some [''abcd'', ''cdef'', ''efg'', ''g'']
   \<and> \<not> overlap_is_prefix 2 ''efg'' ''g''
   \<and> \<not> successively (overlap_is_prefix 2) [''abcd'', ''cdef'', ''efg'', ''g'']"
  by code_simp

section \<open>Embedding gateway, vector index and answer generator\<close>

text \<open>
  C6: for the empty input sequence \<open>embed_texts\<close> returns the empty sequence and sends no
  request to the embedding service.
\<close>

theorem embed_texts_empty:
  "embed_texts service [] has_callback =
     \<lparr>embed_result = Inr [], embed_requests = [], embed_progress = []\<rparr>"
  by (simp add: embed_texts_def)

text \<open>
  C7: whenever the search of the vector index returns the empty sequence, the answer
  operation returns the fixed message and sends no request to the completion service.
\<close>

theorem rag_query_no_results:
  "search service distance vector_store question top_k_arg = Inr [] \<Longrightarrow>
   rag_query service distance completions vector_store question top_k_arg =
     \<lparr>rag_result = Inr no_documents_message, rag_completions = []\<rparr>"
  by (simp add: rag_query_def)

theorem rag_query_no_results_witness:
  "search length_service example_distance empty_store ''why'' None = Inr []
   \<and> rag_query length_service example_distance (calling_service ''{}'') empty_store ''why'' None =
       \<lparr>rag_result = Inr no_documents_message, rag_completions = []\<rparr>"
proof -
  have h: "search length_service example_distance empty_store ''why'' None = Inr []"
    by (simp add: search_def embed_text_def collection_query_def length_service_def
        empty_store_def)
  show ?thesis
    using h rag_query_no_results [OF h, of "calling_service ''{}''"] by simp
qed

text \<open>
  C8: when the embedding step of \<open>add_chunks\<close> raises, the store is left as it was: the
  embeddings of all chunks are computed before the store is written.
\<close>

theorem add_chunks_embedding_failure:
  "embed_result (embed_texts service (map chunk_text chunks) has_callback) = Inl err \<Longrightarrow>
   add_chunks service self chunks has_callback = (Some err, self)"
  by (cases "chunks = []") (simp_all add: add_chunks_def embed_texts_def)

theorem add_chunks_embedding_failure_witness:
  "embed_requests (embed_texts example_service
       (map chunk_text (map (\<lambda>i. example_chunk (int i)) [0..<60])) False)
     = [replicate 50 ''some text'', replicate 10 ''some text'']
   \<and> embed_result (embed_texts example_service
       (map chunk_text (map (\<lambda>i. example_chunk (int i)) [0..<60])) False)
     = Inl EmbeddingServiceError
   \<and> add_chunks example_service empty_store (map (\<lambda>i. example_chunk (int i)) [0..<60]) False
     = (Some EmbeddingServiceError, empty_store)"
proof -
  have r: "embed_requests (embed_texts example_service
       (map chunk_text (map (\<lambda>i. example_chunk (int i)) [0..<60])) False)
     = [replicate 50 ''some text'', replicate 10 ''some text'']"
    by code_simp
  have h: "embed_result (embed_texts example_service
       (map chunk_text (map (\<lambda>i. example_chunk (int i)) [0..<60])) False)
     = Inl EmbeddingServiceError"
    by code_simp
  show ?thesis
    using r h add_chunks_embedding_failure [OF h, of empty_store] by simp
qed

lemma collection_query_length:
  "length (collection_query distance coll q k) = min (nat k) (length coll)"
  by (simp add: collection_query_def)

text \<open>
  C10: \<open>search\<close> with \<open>top_k\<close> equal to 0, or omitted, uses the configured default
  \<open>top_k\<close> of the store, both arguments being falsy in \<open>top_k or self.top_k\<close>: it raises only
  what embedding the query raises, and otherwise returns the entries that the store ranks
  for \<open>n_results = self.top_k\<close>, as many as the smaller of \<open>self.top_k\<close> and the size of the
  collection, not zero results.
\<close>

theorem search_top_k_zero_is_default:
  "effective_k self (Some 0) = top_k self
   \<and> effective_k self None = top_k self
   \<and> search service distance self query (Some 0) = search service distance self query None
   \<and> search service distance self query None =
       search service distance self query (Some (top_k self))
   \<and> (\<forall>err. embed_text service query = Inl err \<longrightarrow>
         search service distance self query (Some 0) = Inl err)
   \<and> (\<forall>query_embedding. embed_text service query = Inr query_embedding \<longrightarrow>
         search service distance self query (Some 0) =
           Inr (map (\<lambda>x. \<lparr>result_text = entry_document x,
                           result_metadata = entry_metadata x,
                           result_distance = distance query_embedding (entry_embedding x)\<rparr>)
                 (collection_query distance (collection self) query_embedding (top_k self)))
         \<and> length (projr (search service distance self query (Some 0))) =
               min (nat (top_k self)) (length (collection self)))"
  by (simp add: effective_k_def search_def collection_query_length)

theorem search_top_k_zero_is_default_witness:
  "embed_text length_service ''query'' = Inr 5
   \<and> top_k two_store = 5 \<and> length (collection two_store) = 2
   \<and> search length_service example_distance two_store ''query'' (Some 0) =
       Inr [\<lparr>result_text = ''alpha'',
             result_metadata = Some [(''page_number'', MInt 1), (''source_file'', MStr ''a.pdf''),
                                     (''chunk_index'', MInt 0)],
             result_distance = 0\<rparr>,
            \<lparr>result_text = ''beta beta'',
             result_metadata = Some [(''page_number'', MInt 2), (''source_file'', MStr ''b.pdf''),
                                     (''chunk_index'', MInt 0)],
             result_distance = 4\<rparr>]
   \<and> search length_service example_distance two_store ''query'' None =
       search length_service example_distance two_store ''query'' (Some 0)
   \<and> length (projr (search length_service example_distance two_store ''query'' (Some 0))) = 2
   \<and> top_k narrow_store = 1 \<and> length (collection narrow_store) = 2
   \<and> search length_service example_distance narrow_store ''query'' (Some 0) =
       Inr [\<lparr>result_text = ''alpha'',
             result_metadata = Some [(''page_number'', MInt 1), (''source_file'', MStr ''a.pdf''),
                                     (''chunk_index'', MInt 0)],
             result_distance = 0\<rparr>]
   \<and> length (projr (search length_service example_distance narrow_store ''query'' (Some 0))) = 1"
proof -
  have a: "embed_text length_service ''query'' = Inr 5"
    by (simp add: embed_text_def length_service_def)
  have b: "top_k two_store = 5" "length (collection two_store) = 2"
    by code_simp+
  have c: "top_k narrow_store = 1" "length (collection narrow_store) = 2"
    by code_simp+
  have d: "search length_service example_distance two_store ''query'' (Some 0) =
       Inr [\<lparr>result_text = ''alpha'',
             result_metadata = Some [(''page_number'', MInt 1), (''source_file'', MStr ''a.pdf''),
                                     (''chunk_index'', MInt 0)],
             result_distance = 0\<rparr>,
            \<lparr>result_text = ''beta beta'',
             result_metadata = Some [(''page_number'', MInt 2), (''source_file'', MStr ''b.pdf''),
                                     (''chunk_index'', MInt 0)],
             result_distance = 4\<rparr>]"
    by code_simp
  have e: "search length_service example_distance narrow_store ''query'' (Some 0) =
       Inr [\<lparr>result_text = ''alpha'',
             result_metadata = Some [(''page_number'', MInt 1), (''source_file'', MStr ''a.pdf''),
                                     (''chunk_index'', MInt 0)],
             result_distance = 0\<rparr>]"
    by code_simp
  show ?thesis
    using a b c d e
      search_top_k_zero_is_default
        [where self = two_store and service = length_service
           and distance = example_distance and query = "''query''"]
      search_top_k_zero_is_default
        [where self = narrow_store and service = length_service
           and distance = example_distance and query = "''query''"]
    by simp
qed

section \<open>Tool-calling loop\<close>

text \<open>
  C9: with no tool provider attached the loop returns the content of the first completion
  response at once, also when that response carries tool calls; no tool is dispatched, one
  completion request is made, and the content returned may be \<open>None\<close>.
\<close>

theorem no_provider_returns_first_response:
  assumes "mcp_client self = None" and "0 < max_iterations self"
    and "completions [SystemMessage (system_prompt self), UserMessage query] None = Inr message"
  shows "process_async loads completions self query =
           (Inr (content message),
            \<lparr>messages = [SystemMessage (system_prompt self), UserMessage query],
             requests = 1, dispatched = []\<rparr>)"
proof -
  from assms(2) obtain n where n: "nat (max_iterations self) = Suc n"
    by (cases "nat (max_iterations self)") auto
  show ?thesis
    using assms(1,3) by (simp add: process_async_def n Let_def split: option.splits)
qed

theorem no_provider_returns_first_response_witness:
  "mcp_client lone_agent = None \<and> 0 < max_iterations lone_agent
   \<and> tool_calls (projr (calling_service ''{}''
         [SystemMessage (system_prompt lone_agent), UserMessage ''hello''] None)) \<noteq> None
   \<and> process_async example_loads (calling_service ''{}'') lone_agent ''hello'' =
       (Inr None,
        \<lparr>messages = [SystemMessage (system_prompt lone_agent), UserMessage ''hello''],
         requests = 1, dispatched = []\<rparr>)"
proof -
  have a: "mcp_client lone_agent = None"
    by (simp add: lone_agent_def QAAgent_def BaseAgent_init_def)
  have b: "0 < max_iterations lone_agent"
    by (simp add: lone_agent_def QAAgent_def BaseAgent_init_def)
  have c: "calling_service ''{}'' [SystemMessage (system_prompt lone_agent), UserMessage ''hello'']
             None = Inr \<lparr>content = None,
                          tool_calls = Some [\<lparr>call_id = ''call_1'', call_name = ''search'',
                                              call_arguments = ''{}''\<rparr>]\<rparr>"
    by (simp add: calling_service_def)
  show ?thesis
    using a b c
      no_provider_returns_first_response
        [of lone_agent "calling_service ''{}''" "''hello''" _ example_loads, OF a b c]
    by simp
qed

section \<open>Vector index: deleting a document\<close>

lemma collect_sources_absent:
  "v \<notin> sources \<Longrightarrow> \<forall>m\<in>set ms. \<not> metadata_matches ''source_file'' v m \<Longrightarrow>
   v \<notin> collect_sources ms sources"
proof (induction ms arbitrary: sources)
  case Nil
  then show ?case by simp
next
  case (Cons m ms)
  then show ?case
    by (auto simp: metadata_matches_def split: option.splits)
qed

lemma collection_query_subset:
  "set (collection_query distance coll q k) \<subseteq> set coll"
proof -
  have "set (collection_query distance coll q k)
          \<subseteq> set (sort_key (\<lambda>x. distance q (entry_embedding x)) coll)"
    unfolding collection_query_def by (rule set_take_subset)
  then show ?thesis by simp
qed

lemma list_documents_after_delete:
  "MStr f \<notin> list_documents (delete_document self f)"
  unfolding list_documents_def collection_get_metadatas_def
  by (rule collect_sources_absent) (auto simp: delete_document_def collection_delete_def)

lemma search_after_delete:
  assumes "search service distance (delete_document self f) query top_k_arg = Inr results"
    and "r \<in> set results"
  shows "\<not> from_source f (result_metadata r)"
proof -
  from assms obtain q x where
    x: "x \<in> set (collection_query distance (collection (delete_document self f)) q
                   (effective_k (delete_document self f) top_k_arg))"
    and r: "result_metadata r = entry_metadata x"
    by (auto simp: search_def Let_def split: sum.splits)
  from x have "x \<in> set (collection (delete_document self f))"
    using collection_query_subset [of distance "collection (delete_document self f)" q] by auto
  then have "\<not> from_source f (entry_metadata x)"
    by (simp add: delete_document_def collection_delete_def from_source_def)
  with r show ?thesis by simp
qed

lemma delete_document_noop:
  assumes "\<forall>x\<in>set (collection self). \<not> from_source f (entry_metadata x)"
  shows "delete_document self f = self"
proof -
  have "filter (\<lambda>x. \<not> from_source f (entry_metadata x)) (collection self) = collection self"
    using assms by (simp add: filter_id_conv)
  then show ?thesis by (simp add: delete_document_def collection_delete_def from_source_def)
qed

text \<open>
  C4: after \<open>delete_document f\<close>, \<open>list_documents\<close> does not contain \<open>f\<close> and no result of a
  later search has \<open>f\<close> as its source file; the store keeps exactly the entries of the other
  source files, unchanged and in their order; and when no entry has source file \<open>f\<close> the
  store is left as it was.
\<close>

theorem delete_document_removes_source:
  "MStr f \<notin> list_documents (delete_document self f)
   \<and> (\<forall>results. search service distance (delete_document self f) query top_k_arg = Inr results \<longrightarrow>
         (\<forall>r\<in>set results. \<not> from_source f (result_metadata r)))
   \<and> collection (delete_document self f) =
       filter (\<lambda>x. \<not> from_source f (entry_metadata x)) (collection self)
   \<and> top_k (delete_document self f) = top_k self
   \<and> ((\<forall>x\<in>set (collection self). \<not> from_source f (entry_metadata x))
        \<longrightarrow> delete_document self f = self)"
proof (intro conjI allI impI ballI)
  show "MStr f \<notin> list_documents (delete_document self f)"
    by (rule list_documents_after_delete)
next
  fix results r
  assume "search service distance (delete_document self f) query top_k_arg = Inr results"
    and "r \<in> set results"
  then show "\<not> from_source f (result_metadata r)"
    by (rule search_after_delete)
next
  show "collection (delete_document self f) =
       filter (\<lambda>x. \<not> from_source f (entry_metadata x)) (collection self)"
    by (simp add: delete_document_def collection_delete_def from_source_def)
next
  show "top_k (delete_document self f) = top_k self"
    by (simp add: delete_document_def)
next
  assume "\<forall>x\<in>set (collection self). \<not> from_source f (entry_metadata x)"
  then show "delete_document self f = self"
    by (rule delete_document_noop)
qed

theorem delete_document_removes_source_witness:
  "MStr ''a.pdf'' \<in> list_documents two_store
   \<and> MStr ''a.pdf'' \<notin> list_documents (delete_document two_store ''a.pdf'')
   \<and> search length_service example_distance (delete_document two_store ''a.pdf'') ''query'' None =
       Inr [\<lparr>result_text = ''beta beta'',
             result_metadata = Some [(''page_number'', MInt 2), (''source_file'', MStr ''b.pdf''),
                                     (''chunk_index'', MInt 0)],
             result_distance = 4\<rparr>]
   \<and> map entry_id (collection (delete_document two_store ''a.pdf'')) = [''b.pdf_0'']
   \<and> filter (\<lambda>x. from_source ''c.pdf'' (entry_metadata x)) (collection two_store) = []
   \<and> delete_document two_store ''c.pdf'' = two_store"
proof -
  have a: "MStr ''a.pdf'' \<in> list_documents two_store"
    by code_simp
  have b: "search length_service example_distance (delete_document two_store ''a.pdf'') ''query'' None =
       Inr [\<lparr>result_text = ''beta beta'',
             result_metadata = Some [(''page_number'', MInt 2), (''source_file'', MStr ''b.pdf''),
                                     (''chunk_index'', MInt 0)],
             result_distance = 4\<rparr>]"
    by code_simp
  have c: "map entry_id (collection (delete_document two_store ''a.pdf'')) = [''b.pdf_0'']"
    by code_simp
  have d: "\<forall>x\<in>set (collection two_store). \<not> from_source ''c.pdf'' (entry_metadata x)"
    by code_simp
  then have e: "filter (\<lambda>x. from_source ''c.pdf'' (entry_metadata x)) (collection two_store) = []"
    by (simp add: filter_empty_conv)
  show ?thesis
    using a b c d e
      delete_document_removes_source
        [where f = "''a.pdf''" and self = two_store and service = length_service
           and distance = example_distance and query = "''query''" and top_k_arg = None]
      delete_document_removes_source
        [where f = "''c.pdf''" and self = two_store and service = length_service
           and distance = example_distance and query = "''query''" and top_k_arg = None]
    by blast
qed

section \<open>Tool-calling loop: malformed arguments and the iteration budget\<close>


lemma dispatch_parse_failure:
  "tc \<in> set calls \<Longrightarrow> loads (call_arguments tc) = None \<Longrightarrow>
   dispatch_tool_calls loads client calls st =
     (Some JSONDecodeError,
      st\<lparr>messages := messages st @ tool_messages loads client (parsed_prefix loads calls),
         dispatched := dispatched st @ tool_invocations loads (parsed_prefix loads calls)\<rparr>)"
proof (induction calls arbitrary: st)
  case Nil
  then show ?case by simp
next
  case (Cons c calls)
  show ?case
  proof (cases "loads (call_arguments c)")
    case None
    then show ?thesis by (simp add: tool_messages_def tool_invocations_def parsed_prefix_def)
  next
    case (Some a)
    with Cons.prems have "tc \<in> set calls" by auto
    from Cons.IH [OF this Cons.prems(2)] Some show ?thesis
      by (simp add: tool_messages_def tool_invocations_def parsed_prefix_def Let_def)
  qed
qed


text \<open>
  C2: a tool call whose arguments string is not parseable as JSON is to be answered with a
  tool-role error message, the loop going on to its next iteration, and the parse failure
  is never to leave the invocation. The code breaks this. The tool provider turns an unknown
  tool and a failed invocation into the text of a tool-role message, but \<open>json.loads\<close> is
  called unguarded: in any iteration of the loop with a tool provider attached, a response
  with a tool call whose arguments string does not parse makes the invocation raise
  \<open>JSONDecodeError\<close>. Tool-role messages are appended, and tools invoked, only for the calls
  before the first such call; no message is appended for the call itself, and no further
  completion request follows.
\<close>

theorem malformed_arguments_raise:
  assumes "mcp_client self = Some client"
    and "completions (messages st) (if decls \<noteq> [] then Some decls else None) = Inr message"
    and "tool_calls message = Some calls"
    and "tc \<in> set calls" and "loads (call_arguments tc) = None"
  shows "tool_loop loads completions self decls (Suc n) st =
           (Inl JSONDecodeError,
            st\<lparr>requests := Suc (requests st),
               messages := messages st @ AssistantMessage message
                  # tool_messages loads client (parsed_prefix loads calls),
               dispatched := dispatched st @ tool_invocations loads (parsed_prefix loads calls)\<rparr>)"
proof -
  from assms(4) have ne: "calls \<noteq> []" by auto
  show ?thesis
    using assms(1,2,3) ne
    by (simp add: Let_def dispatch_parse_failure [where loads = loads, OF assms(4,5)])
qed

theorem malformed_arguments_raise_witness:
  "process_async example_loads mixed_service provided_agent ''hello'' =
     (Inl JSONDecodeError,
      \<lparr>messages = [SystemMessage (system_prompt provided_agent), UserMessage ''hello'',
                   AssistantMessage (projr (mixed_service [] None)),
                   ToolMessage ''call_1'' ''found: {}''],
       requests = 1, dispatched = [(''search'', ''{}'')]\<rparr>)"
proof -
  let ?st = "\<lparr>messages = [SystemMessage (system_prompt provided_agent), UserMessage ''hello''],
              requests = 0, dispatched = [] :: (string \<times> string) list\<rparr>"
  let ?tc = "\<lparr>call_id = ''call_2'', call_name = ''search'', call_arguments = ''''\<rparr>"
  let ?calls = "[\<lparr>call_id = ''call_1'', call_name = ''search'', call_arguments = ''{}''\<rparr>, ?tc,
                 \<lparr>call_id = ''call_3'', call_name = ''lookup'', call_arguments = ''[]''\<rparr>]"
  let ?decls = "get_openai_tools example_client"
  have a: "mcp_client provided_agent = Some example_client"
    by (simp add: provided_agent_def QAAgent_def BaseAgent_init_def)
  have b: "mixed_service (messages ?st) (if ?decls \<noteq> [] then Some ?decls else None)
             = Inr (projr (mixed_service [] None))"
    by (simp add: mixed_service_def)
  have c: "tool_calls (projr (mixed_service [] None)) = Some ?calls"
    by (simp add: mixed_service_def)
  have d: "?tc \<in> set ?calls" by simp
  have e: "example_loads (call_arguments ?tc) = None"
    by (simp add: example_loads_def)
  have n: "nat (max_iterations provided_agent) = Suc 9"
    by (simp add: provided_agent_def QAAgent_def BaseAgent_init_def)
  show ?thesis
    using malformed_arguments_raise
        [where loads = example_loads and completions = mixed_service and self = provided_agent
           and st = ?st and decls = ?decls and n = 9, OF a b c d e]
    by (simp add: process_async_def a n tool_messages_def tool_invocations_def
        parsed_prefix_def example_loads_def call_tool_def example_client_def)
qed

text \<open>The same at an input of one call, whose arguments are the empty string.\<close>

lemma malformed_arguments_single_call:
  "example_loads '''' = None
   \<and> mcp_client provided_agent = Some example_client
   \<and> process_async example_loads (calling_service '''') provided_agent ''hello'' =
       (Inl JSONDecodeError,
        \<lparr>messages = [SystemMessage (system_prompt provided_agent), UserMessage ''hello'',
                     AssistantMessage
                       \<lparr>content = None,
                        tool_calls = Some [\<lparr>call_id = ''call_1'', call_name = ''search'',
                                            call_arguments = ''''\<rparr>]\<rparr>],
         requests = 1, dispatched = []\<rparr>)"
  by (simp add: example_loads_def provided_agent_def QAAgent_def BaseAgent_init_def
      process_async_def calling_service_def Let_def numeral_eq_Suc)




end
